theory Spec2Isabelle
  imports Main
begin

section \<open>Python values\<close>

text \<open>
  The script reads JSON from the Elba API and writes JSON to Bitrix24, so every value it
  handles is a parsed JSON value. A Python \<open>str\<close> is a sequence of Unicode code points and
  is modelled as the list of its code points; \<open>ustr\<close> turns an ASCII literal into such a
  list. JSON numbers are integers in this model (Python floats are left out). A Python
  \<open>dict\<close> is an association list in insertion order, looked up with \<open>map_of\<close>.
\<close>

type_synonym pystr = "nat list"

definition ustr :: "string \<Rightarrow> pystr" where
  "ustr s = map of_char s"

datatype json =
    JNull
  | JBool bool
  | JInt int
  | JStr pystr
  | JList "json list"
  | JObj "(pystr \<times> json) list"

type_synonym pydict = "(pystr \<times> json) list"

text \<open>Truth value testing, as \<open>if x\<close>, \<open>not x\<close> and \<open>x or y\<close> do it.\<close>

fun truthy :: "json \<Rightarrow> bool" where
  "truthy JNull = False"
| "truthy (JBool b) = b"
| "truthy (JInt i) = (i \<noteq> 0)"
| "truthy (JStr s) = (s \<noteq> [])"
| "truthy (JList xs) = (xs \<noteq> [])"
| "truthy (JObj kvs) = (kvs \<noteq> [])"

definition py_or :: "json \<Rightarrow> json \<Rightarrow> json" where
  "py_or a b = (if truthy a then a else b)"

text \<open>\<open>d.get(k)\<close> on a dict: the value, or \<open>None\<close> for a missing key.\<close>

definition dict_get :: "pydict \<Rightarrow> pystr \<Rightarrow> json" where
  "dict_get d k = (case map_of d k of None \<Rightarrow> JNull | Some v \<Rightarrow> v)"

text \<open>
  \<open>str(x)\<close>. On \<open>None\<close>, booleans, integers and strings it is written out. On a list or a
  dict Python prints the \<open>repr\<close> of the container, which depends on Unicode tables; that
  rendering is the parameter \<open>r\<close>, so every theorem below holds whatever it is.
\<close>

fun str_nat :: "nat \<Rightarrow> pystr" where
  "str_nat n = (if n < 10 then [48 + n] else str_nat (n div 10) @ [48 + n mod 10])"

declare str_nat.simps [simp del]

definition str_int :: "int \<Rightarrow> pystr" where
  "str_int i = (if i < 0 then 45 # str_nat (nat (- i)) else str_nat (nat i))"

fun py_str :: "(json \<Rightarrow> pystr) \<Rightarrow> json \<Rightarrow> pystr" where
  "py_str r JNull = ustr ''None''"
| "py_str r (JBool b) = (if b then ustr ''True'' else ustr ''False'')"
| "py_str r (JInt i) = str_int i"
| "py_str r (JStr s) = s"
| "py_str r (JList xs) = r (JList xs)"
| "py_str r (JObj kvs) = r (JObj kvs)"

section \<open>Helpers of the script\<close>

subsection \<open>\<open>extract_name_parts\<close>\<close>

text \<open>
  \<open>str.split()\<close> with no argument splits at runs of whitespace and drops empty tokens.
  \<open>py_isspace\<close> lists the code points Python counts as whitespace.
\<close>

definition py_isspace :: "nat \<Rightarrow> bool" where
  "py_isspace c =
     (c \<in> {9, 10, 11, 12, 13, 28, 29, 30, 31, 32, 133, 160, 5760, 8232, 8233, 8239, 8287, 12288}
      \<or> (8192 \<le> c \<and> c \<le> 8202))"

function py_split :: "pystr \<Rightarrow> pystr list" where
  "py_split s =
     (case dropWhile py_isspace s of
        [] \<Rightarrow> []
      | c # cs \<Rightarrow>
          takeWhile (\<lambda>x. \<not> py_isspace x) (c # cs)
            # py_split (dropWhile (\<lambda>x. \<not> py_isspace x) (c # cs)))"
  by pat_completeness auto
termination
proof (relation "measure length")
  show "wf (measure length)" by simp
next
  fix s :: pystr and c cs
  assume eq: "dropWhile py_isspace s = c # cs"
  have "length (dropWhile (\<lambda>x. \<not> py_isspace x) (c # cs)) \<le> length (c # cs)"
    by (rule length_dropWhile_le)
  moreover have "\<not> py_isspace c"
    using hd_dropWhile [of py_isspace s] eq by simp
  ultimately have "length (dropWhile (\<lambda>x. \<not> py_isspace x) (c # cs)) < length (c # cs)"
    using length_dropWhile_le [of "\<lambda>x. \<not> py_isspace x" cs] by simp
  moreover have "length (c # cs) \<le> length s"
    using length_dropWhile_le [of py_isspace s] eq by simp
  ultimately show "(dropWhile (\<lambda>x. \<not> py_isspace x) (c # cs), s) \<in> measure length"
    by simp
qed

declare py_split.simps [simp del]

text \<open>
  \<open>extract_name_parts(full_name)\<close>. The caller passes whatever value the person record
  holds, so the argument is a JSON value; on a string \<open>str(full_name)\<close> is the string.
\<close>

definition extract_name_parts :: "(json \<Rightarrow> pystr) \<Rightarrow> json \<Rightarrow> pystr \<times> pystr \<times> pystr" where
  "extract_name_parts r full_name =
     (if \<not> truthy full_name then ([], [], [])
      else
        let parts = py_split (py_str r full_name);
            last_name = (if length parts > 0 then parts ! 0 else []);
            first_name = (if length parts > 1 then parts ! 1 else []);
            second_name = (if length parts > 2 then parts ! 2 else [])
        in (last_name, first_name, second_name))"

text \<open>
  The reading of "whitespace-splitting" that the name decomposition is checked against:
  \<open>ws_tokens s toks\<close> holds when \<open>s\<close> is the tokens \<open>toks\<close> in order, each a non-empty run
  of non-whitespace characters that ends at a whitespace character or at the end of the
  string, with only whitespace around and between them. \<open>token_at toks i\<close> is the token
  at position \<open>i\<close>, or the empty string when there is none.
\<close>

definition token_at :: "pystr list \<Rightarrow> nat \<Rightarrow> pystr" where
  "token_at toks i = (if i < length toks then toks ! i else [])"

fun at_boundary :: "pystr \<Rightarrow> bool" where
  "at_boundary [] = True"
| "at_boundary (c # cs) = py_isspace c"

inductive ws_tokens :: "pystr \<Rightarrow> pystr list \<Rightarrow> bool" where
  blank: "list_all py_isspace w \<Longrightarrow> ws_tokens w []"
| token: "list_all py_isspace w \<Longrightarrow> t \<noteq> [] \<Longrightarrow> list_all (\<lambda>c. \<not> py_isspace c) t \<Longrightarrow>
          at_boundary rest \<Longrightarrow> ws_tokens rest toks \<Longrightarrow>
          ws_tokens (w @ t @ rest) (t # toks)"

section \<open>Properties\<close>

subsection \<open>Name decomposition\<close>

lemma dropWhile_all: "list_all P w \<Longrightarrow> dropWhile P (w @ ys) = dropWhile P ys"
  by (induction w) auto

lemma takeWhile_token:
  "list_all (\<lambda>c. \<not> py_isspace c) t \<Longrightarrow> at_boundary rest \<Longrightarrow>
   takeWhile (\<lambda>x. \<not> py_isspace x) (t @ rest) = t"
  by (induction t) (cases rest; simp)+

lemma dropWhile_token:
  "list_all (\<lambda>c. \<not> py_isspace c) t \<Longrightarrow> at_boundary rest \<Longrightarrow>
   dropWhile (\<lambda>x. \<not> py_isspace x) (t @ rest) = rest"
  by (induction t) (cases rest; simp)+

lemma py_split_blank: "list_all py_isspace w \<Longrightarrow> py_split w = []"
proof -
  assume "list_all py_isspace w"
  then have d: "dropWhile py_isspace w = []" by (simp add: list_all_iff)
  show ?thesis by (subst py_split.simps) (simp only: d list.case)
qed

lemma py_split_token:
  assumes w: "list_all py_isspace w" and t: "t \<noteq> []"
    and nt: "list_all (\<lambda>c. \<not> py_isspace c) t"
    and r: "at_boundary rest"
  shows "py_split (w @ t @ rest) = t # py_split rest"
proof -
  obtain c cs where tc: "t = c # cs" using t by (cases t) auto
  with nt have c: "\<not> py_isspace c" by simp
  have d: "dropWhile py_isspace (w @ t @ rest) = c # (cs @ rest)"
    using dropWhile_all [OF w, of "t @ rest"] tc c by simp
  have "takeWhile (\<lambda>x. \<not> py_isspace x) (c # (cs @ rest)) = t"
    using takeWhile_token [OF nt r] tc by simp
  moreover have "dropWhile (\<lambda>x. \<not> py_isspace x) (c # (cs @ rest)) = rest"
    using dropWhile_token [OF nt r] tc by simp
  ultimately show ?thesis
    by (subst py_split.simps) (simp only: d list.case)
qed

lemma ws_tokens_unique: "ws_tokens s toks \<Longrightarrow> py_split s = toks"
  by (induction rule: ws_tokens.induct) (simp_all add: py_split_blank py_split_token)

lemma ws_tokens_py_split: "ws_tokens s (py_split s)"
proof (induction s rule: py_split.induct)
  case (1 s)
  let ?w = "takeWhile py_isspace s"
  let ?d = "dropWhile py_isspace s"
  have w: "list_all py_isspace ?w"
    by (auto simp only: list_all_iff dest: set_takeWhileD)
  show ?case
  proof (cases ?d)
    case Nil
    then have "list_all py_isspace s" by (simp add: list_all_iff)
    then show ?thesis by (simp add: ws_tokens.blank py_split_blank)
  next
    case (Cons c cs)
    let ?t = "takeWhile (\<lambda>x. \<not> py_isspace x) (c # cs)"
    let ?r = "dropWhile (\<lambda>x. \<not> py_isspace x) (c # cs)"
    have c: "\<not> py_isspace c" using hd_dropWhile [of py_isspace s] Cons by simp
    have t: "?t \<noteq> []" using c by simp
    have nt: "list_all (\<lambda>c. \<not> py_isspace c) ?t"
      by (auto simp only: list_all_iff dest: set_takeWhileD)
    have r: "at_boundary ?r"
      using hd_dropWhile [of "\<lambda>x. \<not> py_isspace x" "c # cs"]
      by (cases ?r) auto
    have IH: "ws_tokens ?r (py_split ?r)" using "1.IH" Cons by simp
    have "ws_tokens (?w @ ?t @ ?r) (?t # py_split ?r)"
      by (rule ws_tokens.token [OF w t nt r IH])
    moreover have "?w @ ?t @ ?r = s" using Cons [symmetric] by simp
    moreover have "py_split s = ?t # py_split ?r"
      by (subst py_split.simps) (simp only: Cons list.case)
    ultimately show ?thesis by simp
  qed
qed

lemma extract_name_parts_str:
  "extract_name_parts r (JStr s) =
     (token_at (py_split s) 0, token_at (py_split s) 1, token_at (py_split s) 2)"
proof (cases "s = []")
  case True
  then show ?thesis
    by (simp add: extract_name_parts_def token_at_def py_split.simps)
next
  case False
  then show ?thesis
    by (simp add: extract_name_parts_def token_at_def Let_def)
qed

text \<open>
  Claim C10. For every input string, \<open>extract_name_parts\<close> splits it at whitespace and
  returns the first token as last name, the second as first name and the third as middle
  name, with the empty string for a missing token. In particular
  \<open>"Ivanov Ivan Ivanovich"\<close> gives \<open>("Ivanov", "Ivan", "Ivanovich")\<close>, \<open>"Ivanov"\<close> gives
  \<open>("Ivanov", "", "")\<close> and the empty string gives three empty strings.
\<close>

theorem extract_name_parts_positional:
  "(ws_tokens s toks \<longrightarrow>
      extract_name_parts r (JStr s) = (token_at toks 0, token_at toks 1, token_at toks 2))
   \<and> extract_name_parts r (JStr (ustr ''Ivanov Ivan Ivanovich''))
       = (ustr ''Ivanov'', ustr ''Ivan'', ustr ''Ivanovich'')
   \<and> extract_name_parts r (JStr (ustr ''Ivanov'')) = (ustr ''Ivanov'', [], [])
   \<and> extract_name_parts r (JStr (ustr '''')) = ([], [], [])"
proof (intro conjI impI)
  assume "ws_tokens s toks"
  then have "py_split s = toks" by (rule ws_tokens_unique)
  then show "extract_name_parts r (JStr s) = (token_at toks 0, token_at toks 1, token_at toks 2)"
    by (simp add: extract_name_parts_str)
next
  show "extract_name_parts r (JStr (ustr ''Ivanov Ivan Ivanovich''))
       = (ustr ''Ivanov'', ustr ''Ivan'', ustr ''Ivanovich'')"
    by (simp add: extract_name_parts_def ustr_def py_split.simps py_isspace_def)
next
  show "extract_name_parts r (JStr (ustr ''Ivanov'')) = (ustr ''Ivanov'', [], [])"
    by (simp add: extract_name_parts_def ustr_def py_split.simps py_isspace_def)
next
  show "extract_name_parts r (JStr (ustr '''')) = ([], [], [])"
    by (simp add: extract_name_parts_def ustr_def)
qed


theorem extract_name_parts_positional_witness:
  "ws_tokens (ustr ''  Anna Maria  Eva Lee '')
     [ustr ''Anna'', ustr ''Maria'', ustr ''Eva'', ustr ''Lee'']
   \<and> extract_name_parts (\<lambda>v. []) (JStr (ustr ''  Anna Maria  Eva Lee ''))
       = (ustr ''Anna'', ustr ''Maria'', ustr ''Eva'')"
proof -
  have sp: "py_split (ustr ''  Anna Maria  Eva Lee '')
      = [ustr ''Anna'', ustr ''Maria'', ustr ''Eva'', ustr ''Lee'']"
    by (simp add: ustr_def py_split.simps py_isspace_def)
  have w: "ws_tokens (ustr ''  Anna Maria  Eva Lee '')
      [ustr ''Anna'', ustr ''Maria'', ustr ''Eva'', ustr ''Lee'']"
    using ws_tokens_py_split [of "ustr ''  Anna Maria  Eva Lee ''"] by (simp only: sp)
  show ?thesis
    using w extract_name_parts_positional
      [of "ustr ''  Anna Maria  Eva Lee ''"
          "[ustr ''Anna'', ustr ''Maria'', ustr ''Eva'', ustr ''Lee'']" "\<lambda>v. []"]
    by (simp add: token_at_def)
qed

end
